theory Spec2Isabelle
  imports Complex_Main
begin

section \<open>Exceptions and samples\<close>

text \<open>
  The transforms of \<^verbatim>\<open>thelper/transforms.py\<close> raise Python exceptions; every raise is
  a value \<open>Inl e\<close> of the result type \<open>error + 'a\<close>. \<open>CvError\<close> stands for the
  \<^verbatim>\<open>cv2.error\<close> of an OpenCV primitive.
\<close>

datatype error =
  AssertionError | TypeError | IndexError | ValueError | AttributeError
  | ZeroDivisionError | NotImplementedError | CvError

text \<open>
  A sample handed to \<^verbatim>\<open>Duplicator\<close> or \<^verbatim>\<open>Compose\<close> is any Python object; the only
  distinction these two classes make is whether it is a \<^verbatim>\<open>list\<close>
  (\<^verbatim>\<open>isinstance(sample, list)\<close>).
\<close>

datatype 'a sample = Single 'a | SList "'a sample list"

section \<open>Python values and numbers\<close>

text \<open>
  Constructor arguments are Python values. \<open>seq_items\<close> gives the items of a tuple
  or a list (\<^verbatim>\<open>isinstance(x, (tuple, list))\<close>) and \<open>None\<close> for anything else. A Python
  \<^verbatim>\<open>float\<close> is modelled by the real number it denotes: products and comparisons are
  exact, there is no rounding error, no infinity and no NaN.
\<close>

datatype pyval =
  PyNone | PyInt int | PyFloat real | PyStr string | PyTuple "pyval list" | PyList "pyval list"

definition seq_items :: "pyval \<Rightarrow> pyval list option" where
  "seq_items v = (case v of PyTuple xs \<Rightarrow> Some xs | PyList xs \<Rightarrow> Some xs | _ \<Rightarrow> None)"

definition is_int :: "pyval \<Rightarrow> bool" where
  "is_int v = (case v of PyInt i \<Rightarrow> True | _ \<Rightarrow> False)"

definition is_float :: "pyval \<Rightarrow> bool" where
  "is_float v = (case v of PyFloat x \<Rightarrow> True | _ \<Rightarrow> False)"

text \<open>The number a numeric value denotes; \<^verbatim>\<open>TypeError\<close> for anything else.\<close>

definition num_of :: "pyval \<Rightarrow> error + real" where
  "num_of v = (case v of PyInt i \<Rightarrow> Inr (of_int i) | PyFloat x \<Rightarrow> Inr x | _ \<Rightarrow> Inl TypeError)"

text \<open>Python 3 \<^verbatim>\<open>int(round(x))\<close>: to the nearest integer, a tie to the even one.\<close>

definition py_round :: "real \<Rightarrow> int" where
  "py_round x =
     (let f = \<lfloor>x\<rfloor>; d = x - of_int f
      in if d < 1 / 2 then f
         else if 1 / 2 < d then f + 1
         else if even f then f else f + 1)"

section \<open>Arrays and the OpenCV primitives\<close>

text \<open>
  A numpy array: its shape and its element at each index (one coordinate per axis).
  The value of \<open>elem\<close> at an index outside the shape is never read.
\<close>

record ndarray =
  shape :: "nat list"
  elem :: "nat list \<Rightarrow> int"

definition ndim :: "ndarray \<Rightarrow> nat" where
  "ndim a = length (shape a)"

text \<open>An image argument is a numpy array or a \<^verbatim>\<open>PIL.Image.Image\<close>.\<close>

datatype image = NdArray ndarray | PILImage ndarray

definition np_asarray :: "image \<Rightarrow> ndarray" where
  "np_asarray img = (case img of NdArray a \<Rightarrow> a | PILImage a \<Rightarrow> a)"



text \<open>
  The border modes of \<^verbatim>\<open>cv2.copyMakeBorder\<close> and the source coordinate each one reads
  for a coordinate \<open>p\<close> outside \<open>[0, len)\<close>, after OpenCV's documentation of
  \<^verbatim>\<open>borderInterpolate\<close>.
\<close>

datatype border_mode =
  BORDER_CONSTANT | BORDER_REPLICATE | BORDER_REFLECT | BORDER_WRAP | BORDER_REFLECT_101

definition border_interpolate :: "int \<Rightarrow> nat \<Rightarrow> border_mode \<Rightarrow> nat" where
  "border_interpolate p len bt =
     (let n = int len in
      case bt of
        BORDER_CONSTANT \<Rightarrow> 0
      | BORDER_REPLICATE \<Rightarrow> nat (max 0 (min p (n - 1)))
      | BORDER_WRAP \<Rightarrow> nat (p mod n)
      | BORDER_REFLECT \<Rightarrow>
          (let q = p mod (2 * n) in nat (if q < n then q else 2 * n - 1 - q))
      | BORDER_REFLECT_101 \<Rightarrow>
          (if n \<le> 1 then 0
           else let q = p mod (2 * n - 2) in nat (if q < n then q else 2 * n - 2 - q)))"

text \<open>
  OpenCV returns a single-channel result as a 2-D array: the channel axis of an
  \<open>H\<times>W\<times>1\<close> input is dropped (\<^verbatim>\<open>Resize.__call__\<close> restores it with
  \<^verbatim>\<open>np.expand_dims\<close>).
\<close>

definition cv_channels :: "nat list \<Rightarrow> nat list" where
  "cv_channels rest = (if rest = [1] then [] else rest)"

definition cv_channel_index :: "nat list \<Rightarrow> nat list \<Rightarrow> nat list" where
  "cv_channel_index rest ch = (if rest = [1] then [0] else ch)"

text \<open>
  \<^verbatim>\<open>cv2.copyMakeBorder(src, top, bottom, left, right, borderType, value)\<close>, by its
  documented contract on 2-D and 3-D arrays: the result has \<open>top + bottom\<close> more rows
  and \<open>left + right\<close> more columns, the source sits at \<open>(top, left)\<close>, and the border
  is the constant \<open>value\<close> or is read from the source. Other ranks and negative
  margins are refused.
\<close>

definition copyMakeBorder ::
  "ndarray \<Rightarrow> int \<Rightarrow> int \<Rightarrow> int \<Rightarrow> int \<Rightarrow> border_mode \<Rightarrow> int \<Rightarrow> error + ndarray" where
  "copyMakeBorder src top_m bottom_m left_m right_m bordertype borderval =
     (case shape src of
        h # w # rest \<Rightarrow>
          if 1 < length rest \<or> top_m < 0 \<or> bottom_m < 0 \<or> left_m < 0 \<or> right_m < 0
          then Inl CvError
          else Inr \<lparr>shape = nat (int h + top_m + bottom_m) # nat (int w + left_m + right_m)
                               # cv_channels rest,
                    elem = (\<lambda>idx. case idx of
                        r # c # ch \<Rightarrow>
                          (let y = int r - top_m; x = int c - left_m
                           in if 0 \<le> y \<and> y < int h \<and> 0 \<le> x \<and> x < int w
                              then elem src (nat y # nat x # cv_channel_index rest ch)
                              else if bordertype = BORDER_CONSTANT then borderval
                              else elem src (border_interpolate y h bordertype
                                             # border_interpolate x w bordertype
                                             # cv_channel_index rest ch))
                      | _ \<Rightarrow> 0)\<rparr>
      | _ \<Rightarrow> Inl CvError)"

text \<open>
  A Python slice \<^verbatim>\<open>a:b\<close> on an axis of length \<open>n\<close>: a negative bound counts from
  the end, both bounds are clipped to \<open>[0, n]\<close>, and an empty slice has length 0.
  The result is the first index taken and the number of indices taken.
\<close>

definition slice_bound :: "nat \<Rightarrow> int \<Rightarrow> int" where
  "slice_bound n i = (if i < 0 then max (i + int n) 0 else min i (int n))"

definition py_slice :: "nat \<Rightarrow> int \<Rightarrow> int \<Rightarrow> nat \<times> nat" where
  "py_slice n a b =
     (let start = slice_bound n a; stop = slice_bound n b
      in (nat start, nat (max (stop - start) 0)))"

text \<open>\<^verbatim>\<open>image[r0:r1, c0:c1, ...]\<close>; numpy raises \<^verbatim>\<open>IndexError\<close> below two axes.\<close>

definition crop_slice :: "ndarray \<Rightarrow> int \<Rightarrow> int \<Rightarrow> int \<Rightarrow> int \<Rightarrow> error + ndarray" where
  "crop_slice a r0 r1 c0 c1 =
     (case shape a of
        h # w # rest \<Rightarrow>
          (let (rs, rn) = py_slice h r0 r1; (cs, cn) = py_slice w c0 c1
           in Inr \<lparr>shape = rn # cn # rest,
                   elem = (\<lambda>idx. case idx of
                       r # c # ch \<Rightarrow> elem a ((rs + r) # (cs + c) # ch)
                     | _ \<Rightarrow> 0)\<rparr>)
      | _ \<Rightarrow> Inl IndexError)"

text \<open>
  \<^verbatim>\<open>thelper.utils.safe_crop(image, tl, br, bordertype, borderval)\<close>, with \<open>tlc\<close> and
  \<open>brc\<close> the \<open>(x, y)\<close> corners \<^verbatim>\<open>tl\<close> and \<^verbatim>\<open>br\<close>. An array with fewer than two axes raises
  \<^verbatim>\<open>IndexError\<close> at \<^verbatim>\<open>image.shape[1]\<close>.
\<close>

definition safe_crop ::
  "image \<Rightarrow> int \<times> int \<Rightarrow> int \<times> int \<Rightarrow> border_mode \<Rightarrow> int \<Rightarrow> error + ndarray" where
  "safe_crop img tlc brc bordertype borderval =
     (case img of
        PILImage p \<Rightarrow> Inl AssertionError
      | NdArray a \<Rightarrow>
          (case shape a of
             h # w # rest \<Rightarrow>
               if fst tlc < 0 \<or> snd tlc < 0 \<or> fst brc > int w \<or> snd brc > int h
               then
                 (case copyMakeBorder a (max (- snd tlc) 0) (max (snd brc - int h) 0)
                         (max (- fst tlc) 0) (max (fst brc - int w) 0) bordertype borderval of
                    Inl e \<Rightarrow> Inl e
                  | Inr padded \<Rightarrow>
                      (let (tl0, br0) = (if fst tlc < 0 then (0, fst brc - fst tlc)
                                         else (fst tlc, fst brc));
                           (tl1, br1) = (if snd tlc < 0 then (0, snd brc - snd tlc)
                                         else (snd tlc, snd brc))
                       in crop_slice padded tl1 br1 tl0 br0))
               else crop_slice a (snd tlc) (snd brc) (fst tlc) (fst brc)
           | _ \<Rightarrow> Inl IndexError))"

section \<open>CenterCrop\<close>

text \<open>
  \<^verbatim>\<open>thelper.utils.import_class\<close> resolves a border type given as a string; what it
  finds is outside this program, so it is a parameter of the constructors.
\<close>

type_synonym import_class = "string \<Rightarrow> error + border_mode"

datatype border_arg = BorderName string | BorderType border_mode

definition resolve_border :: "import_class \<Rightarrow> border_arg \<Rightarrow> error + border_mode" where
  "resolve_border imp b = (case b of BorderName s \<Rightarrow> imp s | BorderType m \<Rightarrow> Inr m)"






section \<open>Duplicator\<close>

record Duplicator =
  count :: int
  deepcopy :: bool

text \<open>\<^verbatim>\<open>Duplicator.__init__\<close>: rejects \<^verbatim>\<open>count <= 0\<close>.\<close>

definition Duplicator_init :: "int \<Rightarrow> bool \<Rightarrow> error + Duplicator" where
  "Duplicator_init cnt dc =
     (if cnt \<le> 0 then Inl AssertionError
      else Inr \<lparr>count = cnt, deepcopy = dc\<rparr>)"

text \<open>
  \<^verbatim>\<open>copy.copy\<close> and \<^verbatim>\<open>copy.deepcopy\<close> return an object equal to their argument;
  samples are values here, so both are the identity.
\<close>

definition copy_copy :: "'a sample \<Rightarrow> 'a sample" where
  "copy_copy s = s"

definition copy_deepcopy :: "'a sample \<Rightarrow> 'a sample" where
  "copy_deepcopy s = s"

text \<open>
  The loop \<^verbatim>\<open>for idx in range(self.count): duplicates.append(...)\<close>, with the number of
  iterations still to run and the list built so far.
\<close>

fun duplicate_loop :: "Duplicator \<Rightarrow> nat \<Rightarrow> 'a sample \<Rightarrow> 'a sample list \<Rightarrow> 'a sample list" where
  "duplicate_loop d 0 s duplicates = duplicates"
| "duplicate_loop d (Suc n) s duplicates =
     duplicate_loop d n s
       (duplicates @ [if deepcopy d then copy_deepcopy s else copy_copy s])"

definition Duplicator_call :: "Duplicator \<Rightarrow> 'a sample \<Rightarrow> 'a sample" where
  "Duplicator_call d s = SList (duplicate_loop d (nat (count d)) s [])"

text \<open>
  \<^verbatim>\<open>Duplicator.invert\<close>: a non-list and a list of the wrong length raise; otherwise
  \<^verbatim>\<open>sample[0]\<close>, which raises \<^verbatim>\<open>IndexError\<close> on an empty list.
\<close>

definition Duplicator_invert :: "Duplicator \<Rightarrow> 'a sample \<Rightarrow> error + 'a sample" where
  "Duplicator_invert d s =
     (case s of
        Single v \<Rightarrow> Inl AssertionError
      | SList xs \<Rightarrow>
          if int (length xs) \<noteq> count d then Inl AssertionError
          else (case xs of [] \<Rightarrow> Inl IndexError | x # rest \<Rightarrow> Inr x))"

section \<open>Compose\<close>

text \<open>
  What \<^verbatim>\<open>Compose.invert\<close> sees of a wrapped operation: whether it has an attribute
  \<^verbatim>\<open>invert\<close> (\<^verbatim>\<open>hasattr(t, "invert")\<close>), and what calling it returns or raises.
\<close>

record 'a transform =
  forward :: "'a sample \<Rightarrow> error + 'a sample"
  invert_attr :: "('a sample \<Rightarrow> error + 'a sample) option"

text \<open>The body of \<^verbatim>\<open>for t in reversed(self.transforms)\<close>, over the reversed list.\<close>

fun invert_loop :: "'a transform list \<Rightarrow> 'a sample \<Rightarrow> error + 'a sample" where
  "invert_loop [] s = Inr s"
| "invert_loop (t # ts) s =
     (case invert_attr t of
        None \<Rightarrow> Inl AssertionError
      | Some t_invert \<Rightarrow>
          (case t_invert s of
             Inl e \<Rightarrow> Inl e
           | Inr s' \<Rightarrow> invert_loop ts s'))"

definition Compose_invert :: "'a transform list \<Rightarrow> 'a sample \<Rightarrow> error + 'a sample" where
  "Compose_invert transforms s = invert_loop (rev transforms) s"

text \<open>Three concrete operations on integer samples, used to run \<open>Compose_invert\<close>.\<close>

definition dec_op :: "int transform" where
  "dec_op = \<lparr>forward = (\<lambda>s. Inr (map_sample (\<lambda>v. v + 1) s)),
             invert_attr = Some (\<lambda>s. Inr (map_sample (\<lambda>v. v - 1) s))\<rparr>"

definition scale_op :: "int transform" where
  "scale_op = \<lparr>forward = (\<lambda>s. Inr (map_sample (\<lambda>v. v div 10) s)),
               invert_attr = Some (\<lambda>s. Inr (map_sample (\<lambda>v. v * 10) s))\<rparr>"

definition one_way_op :: "int transform" where
  "one_way_op = \<lparr>forward = (\<lambda>s. Inr s), invert_attr = None\<rparr>"


section \<open>Tile\<close>

record Tile =
  tile_size :: "pyval \<times> pyval"
  tile_overlap :: real
  min_mask_iou :: real
  offset_overlap :: bool
  t_bordertype :: border_mode
  t_borderval :: int

text \<open>
  The first check of \<^verbatim>\<open>Tile.__init__\<close>: a pair of two ints or of two floats, or a
  single int or float used for both axes. No sign is checked.
\<close>

definition tile_size_pair :: "pyval \<Rightarrow> error + pyval \<times> pyval" where
  "tile_size_pair tile_size_arg =
     (case seq_items tile_size_arg of
        Some xs \<Rightarrow>
          (case xs of
             [a, b] \<Rightarrow>
               if \<not> list_all is_int xs \<and> \<not> list_all is_float xs
               then Inl AssertionError else Inr (a, b)
           | _ \<Rightarrow> Inl AssertionError)
      | None \<Rightarrow>
          if is_int tile_size_arg \<or> is_float tile_size_arg
          then Inr (tile_size_arg, tile_size_arg)
          else Inl AssertionError)"

text \<open>
  \<^verbatim>\<open>Tile.__init__\<close>. The third test of the \<^verbatim>\<open>min_mask_iou\<close> check reads
  \<^verbatim>\<open>tile_overlap > 1\<close>, as the source does.
\<close>

definition Tile_init ::
  "import_class \<Rightarrow> pyval \<Rightarrow> pyval \<Rightarrow> pyval \<Rightarrow> bool \<Rightarrow> border_arg \<Rightarrow> int \<Rightarrow> error + Tile" where
  "Tile_init imp tile_size_arg tile_overlap_arg min_mask_iou_arg offset_overlap_arg
       bordertype borderval =
     (case tile_size_pair tile_size_arg of
        Inl e \<Rightarrow> Inl e
      | Inr sz \<Rightarrow>
          (case tile_overlap_arg of
             PyFloat ov \<Rightarrow>
               if ov < 0 \<or> 1 \<le> ov then Inl AssertionError
               else
                 (case min_mask_iou_arg of
                    PyFloat iou \<Rightarrow>
                      if iou < 0 \<or> 1 < ov then Inl AssertionError
                      else
                        (case resolve_border imp bordertype of
                           Inl e \<Rightarrow> Inl e
                         | Inr bt \<Rightarrow>
                             Inr \<lparr>tile_size = sz, tile_overlap = ov, min_mask_iou = iou,
                                  offset_overlap = offset_overlap_arg,
                                  t_bordertype = bt, t_borderval = borderval\<rparr>)
                  | _ \<Rightarrow> Inl AssertionError)
           | _ \<Rightarrow> Inl AssertionError))"


















text \<open>The values of \<^verbatim>\<open>tile_size\<close> that pass the first check of \<^verbatim>\<open>Tile.__init__\<close>.\<close>

definition accepted_tile_size :: "pyval \<Rightarrow> bool" where
  "accepted_tile_size v =
     (case seq_items v of
        Some xs \<Rightarrow> length xs = 2 \<and> (list_all is_int xs \<or> list_all is_float xs)
      | None \<Rightarrow> is_int v \<or> is_float v)"





section \<open>Transpose\<close>

text \<open>
  The constructor receives \<open>axes\<close> as a one-dimensional sequence of Python integers.
  \<open>axes_inv\<close> starts as \<^verbatim>\<open>[None] * axes.size\<close> and is filled by the loop.
\<close>

record Transpose =
  axes :: "int list"
  axes_inv :: "int option list"

text \<open>A numpy index or axis number \<open>a\<close> on \<open>n\<close> positions: a negative one counts from the end.\<close>

definition normalize_axis :: "nat \<Rightarrow> int \<Rightarrow> nat" where
  "normalize_axis n a = nat (if a < 0 then a + int n else a)"

definition axis_in_range :: "nat \<Rightarrow> int \<Rightarrow> bool" where
  "axis_in_range n a = (- int n \<le> a \<and> a < int n)"

text \<open>
  The loop \<^verbatim>\<open>for i in range(len(axes)): self.axes_inv[self.axes[i]] = i\<close>, over the
  pairs \<open>(i, axes[i])\<close>; an assignment outside the array raises \<^verbatim>\<open>IndexError\<close>.
\<close>

fun fill_axes_inv :: "(nat \<times> int) list \<Rightarrow> int option list \<Rightarrow> error + int option list" where
  "fill_axes_inv [] inv_axes = Inr inv_axes"
| "fill_axes_inv ((i, a) # rest) inv_axes =
     (if \<not> axis_in_range (length inv_axes) a then Inl IndexError
      else fill_axes_inv rest
             (inv_axes[normalize_axis (length inv_axes) a := Some (int i)]))"

definition Transpose_init :: "int list \<Rightarrow> error + Transpose" where
  "Transpose_init axes_arg =
     (if list_ex (\<lambda>a. int (length axes_arg) \<le> a) axes_arg then Inl AssertionError
      else
        (case fill_axes_inv (zip [0..<length axes_arg] axes_arg)
                (replicate (length axes_arg) None) of
           Inl e \<Rightarrow> Inl e
         | Inr inv_axes \<Rightarrow> Inr \<lparr>axes = axes_arg, axes_inv = inv_axes\<rparr>))"

text \<open>The position of the first occurrence of \<open>j\<close> in a list.\<close>

fun index_of :: "nat list \<Rightarrow> nat \<Rightarrow> nat" where
  "index_of [] j = 0"
| "index_of (x # xs) j = (if x = j then 0 else Suc (index_of xs j))"

text \<open>
  \<^verbatim>\<open>np.transpose(a, axes)\<close>, after numpy's documentation: the axes must be integers
  (\<^verbatim>\<open>None\<close> is a \<^verbatim>\<open>TypeError\<close>), as many as the array has, in range, and without
  repetition (each a \<^verbatim>\<open>ValueError\<close>). Axis \<open>i\<close> of the result is axis \<open>axes[i]\<close>
  of the input, so the element at \<open>idx\<close> is the input's element at the index whose
  coordinate \<open>axes[i]\<close> is \<open>idx[i]\<close>.
\<close>

definition np_transpose :: "ndarray \<Rightarrow> int option list \<Rightarrow> error + ndarray" where
  "np_transpose a axes_arg =
     (if list_ex (\<lambda>x. x = None) axes_arg then Inl TypeError
      else if length axes_arg \<noteq> ndim a then Inl ValueError
      else if list_ex (\<lambda>x. \<not> axis_in_range (ndim a) (the x)) axes_arg then Inl ValueError
      else
        (let perm = map (\<lambda>x. normalize_axis (ndim a) (the x)) axes_arg
         in if \<not> distinct perm then Inl ValueError
            else Inr \<lparr>shape = map (\<lambda>k. shape a ! k) perm,
                      elem = (\<lambda>idx. elem a (map (\<lambda>j. idx ! index_of perm j) [0..<ndim a]))\<rparr>))"

definition Transpose_call :: "Transpose \<Rightarrow> ndarray \<Rightarrow> error + ndarray" where
  "Transpose_call t sample = np_transpose sample (map Some (axes t))"

definition Transpose_invert :: "Transpose \<Rightarrow> ndarray \<Rightarrow> error + ndarray" where
  "Transpose_invert t sample = np_transpose sample (axes_inv t)"

text \<open>A 2\<times>3\<times>4 array whose element at \<open>[i, j, k]\<close> is \<open>100 i + 10 j + k\<close>.\<close>

definition array_2x3x4 :: ndarray where
  "array_2x3x4 = \<lparr>shape = [2, 3, 4],
                  elem = (\<lambda>idx. case idx of [i, j, k] \<Rightarrow> int (100 * i + 10 * j + k) | _ \<Rightarrow> 0)\<rparr>"

text \<open>
  An axes argument that is a permutation: every entry is a valid axis number for as
  many axes as there are entries (negative entries count from the end), and no axis is
  named twice.
\<close>

definition valid_axes :: "int list \<Rightarrow> bool" where
  "valid_axes axes_arg =
     (list_all (axis_in_range (length axes_arg)) axes_arg
      \<and> distinct (map (normalize_axis (length axes_arg)) axes_arg))"

section \<open>Resizing and the random source\<close>

text \<open>
  The interpolation kernel of \<^verbatim>\<open>cv2.resize\<close> is outside this program: it is a
  function giving the resized image's element at each index, from the source and the
  output height and width.
\<close>

type_synonym interpolation = "ndarray \<Rightarrow> nat \<times> nat \<Rightarrow> nat list \<Rightarrow> int"

text \<open>
  \<^verbatim>\<open>cv2.resize(src, dsize, fx, fy, interpolation)\<close> with \<open>dsize = (width, height)\<close>, by
  its documented contract: an empty \<open>dsize\<close> (a component that is not positive) is
  computed from the scale factors, which must then be positive; the source and the
  result must not be empty; the result has \<open>height\<close> rows and \<open>width\<close> columns.
\<close>

definition cv_resize ::
  "ndarray \<Rightarrow> int \<times> int \<Rightarrow> real \<Rightarrow> real \<Rightarrow> interpolation \<Rightarrow> error + ndarray" where
  "cv_resize src dsize_arg fx_arg fy_arg interpolation_arg =
     (case shape src of
        h # w # rest \<Rightarrow>
          if 1 < length rest \<or> h = 0 \<or> w = 0 then Inl CvError
          else if fst dsize_arg \<le> 0 \<or> snd dsize_arg \<le> 0 then
            (if fx_arg \<le> 0 \<or> fy_arg \<le> 0 then Inl CvError
             else
               (let dw = py_round (real w * fx_arg); dh = py_round (real h * fy_arg)
                in if dw \<le> 0 \<or> dh \<le> 0 then Inl CvError
                   else Inr \<lparr>shape = nat dh # nat dw # cv_channels rest,
                             elem = interpolation_arg src (nat dh, nat dw)\<rparr>))
          else Inr \<lparr>shape = nat (snd dsize_arg) # nat (fst dsize_arg) # cv_channels rest,
                    elem = interpolation_arg src (nat (snd dsize_arg), nat (fst dsize_arg))\<rparr>
      | _ \<Rightarrow> Inl CvError)"

text \<open>
  The process-wide random source is a sequence of draws from \<open>[0, 1)\<close>; a call of
  \<^verbatim>\<open>np.random.uniform\<close>, \<^verbatim>\<open>np.random.random\<close> or \<^verbatim>\<open>np.random.randint\<close> consumes the
  next one. \<^verbatim>\<open>randint(low, high)\<close> raises \<^verbatim>\<open>ValueError\<close> unless \<open>low < high\<close>.
\<close>

type_synonym rng = "nat \<Rightarrow> real"

definition np_uniform :: "real \<Rightarrow> real \<Rightarrow> real \<Rightarrow> real" where
  "np_uniform low high u = low + (high - low) * u"

definition np_randint :: "int \<Rightarrow> int \<Rightarrow> real \<Rightarrow> error + int" where
  "np_randint low high u =
     (if high \<le> low then Inl ValueError else Inr (low + \<lfloor>u * of_int (high - low)\<rfloor>))"

text \<open>\<^verbatim>\<open>math.sqrt\<close>: a negative argument raises \<^verbatim>\<open>ValueError\<close>.\<close>

definition math_sqrt :: "real \<Rightarrow> error + real" where
  "math_sqrt x = (if x < 0 then Inl ValueError else Inr (sqrt x))"

section \<open>RandomResizedCrop\<close>

record RandomResizedCrop =
  output_size :: "pyval \<times> pyval"
  input_size :: "(pyval \<times> pyval) \<times> (pyval \<times> pyval)"
  ratio :: "(real \<times> real) option"
  probability :: real
  random_attempts :: int
  flags :: interpolation

text \<open>
  The local variables of \<^verbatim>\<open>__call__\<close> that the sampling loop assigns (all \<^verbatim>\<open>None\<close>
  before it), and the number of random draws consumed so far.
\<close>

record crop_state =
  target_width :: "int option"
  target_height :: "int option"
  target_col :: "int option"
  target_row :: "int option"
  draws :: nat

text \<open>\<^verbatim>\<open>np.random.uniform(a, b)\<close> on two Python numbers.\<close>

definition uniform_between :: "pyval \<Rightarrow> pyval \<Rightarrow> real \<Rightarrow> error + real" where
  "uniform_between a b u =
     (case num_of a of
        Inl e \<Rightarrow> Inl e
      | Inr x \<Rightarrow> (case num_of b of Inl e \<Rightarrow> Inl e | Inr y \<Rightarrow> Inr (np_uniform x y u)))"

text \<open>
  One sampling attempt, up to the test whether the region fits: the sampled
  \<open>(target_width, target_height)\<close> and the new number of draws consumed. The first
  branch is the explicit-range mode (\<^verbatim>\<open>self.ratio is None\<close>), the second the ratio mode;
  a division by a zero aspect ratio raises \<^verbatim>\<open>ZeroDivisionError\<close>.
\<close>

definition sample_region ::
  "RandomResizedCrop \<Rightarrow> rng \<Rightarrow> nat \<Rightarrow> int \<Rightarrow> int \<Rightarrow> error + (int \<times> int) \<times> nat" where
  "sample_region r rnd k image_height image_width =
     (let s00 = fst (fst (input_size r)); s01 = snd (fst (input_size r));
          s10 = fst (snd (input_size r)); s11 = snd (snd (input_size r))
      in case ratio r of
           None \<Rightarrow>
             (case uniform_between s00 s10 (rnd k) of
                Inl e \<Rightarrow> Inl e
              | Inr tw \<Rightarrow>
                  (case uniform_between s01 s11 (rnd (k + 1)) of
                     Inl e \<Rightarrow> Inl e
                   | Inr th \<Rightarrow>
                       if is_float s00
                       then Inr ((py_round (tw * of_int image_width),
                                  py_round (th * of_int image_height)), k + 2)
                       else Inr ((py_round tw, py_round th), k + 2)))
         | Some (rmin, rmax) \<Rightarrow>
             if is_int s00 \<or> is_float s00 then
               (case uniform_between s00 s10 (rnd k) of
                  Inl e \<Rightarrow> Inl e
                | Inr x \<Rightarrow>
                    (let target_area = (if is_float s00
                                        then x * of_int (image_height * image_width)
                                        else x ^ 2);
                         aspect_ratio = np_uniform rmin rmax (rnd (k + 1))
                     in case math_sqrt (target_area * aspect_ratio) of
                          Inl e \<Rightarrow> Inl e
                        | Inr sw \<Rightarrow>
                            if aspect_ratio = 0 then Inl ZeroDivisionError
                            else
                              (case math_sqrt (target_area / aspect_ratio) of
                                 Inl e \<Rightarrow> Inl e
                               | Inr sh \<Rightarrow>
                                   if rnd (k + 2) < 1 / 2
                                   then Inr ((py_round sh, py_round sw), k + 3)
                                   else Inr ((py_round sw, py_round sh), k + 3))))
             else Inl AssertionError)"

text \<open>
  The loop \<^verbatim>\<open>for attempt in range(self.random_attempts)\<close> with its \<^verbatim>\<open>break\<close>: the
  first argument counts the attempts left. A region that fits gets a random position
  and ends the loop; one that does not fit leaves \<open>target_col\<close> and \<open>target_row\<close> as
  they were.
\<close>

fun attempt_loop ::
  "RandomResizedCrop \<Rightarrow> rng \<Rightarrow> int \<Rightarrow> int \<Rightarrow> nat \<Rightarrow> crop_state \<Rightarrow> error + crop_state" where
  "attempt_loop r rnd image_height image_width 0 st = Inr st"
| "attempt_loop r rnd image_height image_width (Suc n) st =
     (case sample_region r rnd (draws st) image_height image_width of
        Inl e \<Rightarrow> Inl e
      | Inr ((tw, th), k) \<Rightarrow>
          if tw \<le> image_width \<and> th \<le> image_height then
            (case np_randint (min 0 (image_width - tw)) (max 0 (image_width - tw) + 1) (rnd k) of
               Inl e \<Rightarrow> Inl e
             | Inr col \<Rightarrow>
                 (case np_randint (min 0 (image_height - th)) (max 0 (image_height - th) + 1)
                         (rnd (k + 1)) of
                    Inl e \<Rightarrow> Inl e
                  | Inr row \<Rightarrow>
                      Inr \<lparr>target_width = Some tw, target_height = Some th,
                           target_col = Some col, target_row = Some row, draws = k + 2\<rparr>))
          else attempt_loop r rnd image_height image_width n
                 (st\<lparr>target_width := Some tw, target_height := Some th, draws := k\<rparr>))"

text \<open>\<^verbatim>\<open>a + b\<close> on two variables that hold an integer or \<^verbatim>\<open>None\<close>.\<close>

definition py_add :: "int option \<Rightarrow> int option \<Rightarrow> error + int" where
  "py_add a b = (case (a, b) of (Some x, Some y) \<Rightarrow> Inr (x + y) | _ \<Rightarrow> Inl TypeError)"

text \<open>
  The centered square crop of the fallback branch. In the source this branch is
  guarded by \<^verbatim>\<open>if image_height is None or image_width is None\<close>.
\<close>

definition centered_fallback :: "nat \<Rightarrow> nat \<Rightarrow> crop_state \<Rightarrow> crop_state" where
  "centered_fallback h w st =
     (let side = min (int h) (int w)
      in st\<lparr>target_width := Some side, target_height := Some side,
             target_col := Some ((int w - side) div 2),
             target_row := Some ((int h - side) div 2)\<rparr>)"

text \<open>
  The output size and the final \<^verbatim>\<open>cv.resize\<close>: relative to the image when
  \<^verbatim>\<open>output_size[0]\<close> is a float, absolute when it is an int.
\<close>

definition resize_crop :: "RandomResizedCrop \<Rightarrow> nat \<Rightarrow> nat \<Rightarrow> ndarray \<Rightarrow> error + ndarray" where
  "resize_crop r h w crop =
     (case output_size r of
        (PyFloat ow, PyFloat oh) \<Rightarrow>
          cv_resize crop (py_round (ow * real w), py_round (oh * real h)) 0 0 (flags r)
      | (PyFloat ow, other) \<Rightarrow>
          (case num_of other of
             Inl e \<Rightarrow> Inl e
           | Inr oh \<Rightarrow>
               cv_resize crop (py_round (ow * real w), py_round (oh * real h)) 0 0 (flags r))
      | (PyInt ow, PyInt oh) \<Rightarrow> cv_resize crop (ow, oh) 0 0 (flags r)
      | (PyInt ow, other) \<Rightarrow> Inl TypeError
      | _ \<Rightarrow> Inl AssertionError)"

text \<open>
  \<^verbatim>\<open>RandomResizedCrop.__call__\<close>. \<open>image_height\<close> and \<open>image_width\<close> are read from the
  shape, so they are never \<^verbatim>\<open>None\<close>; the corner \<^verbatim>\<open>target_col + target_width\<close> is
  computed before \<^verbatim>\<open>safe_crop\<close> is entered.
\<close>

definition RandomResizedCrop_call :: "RandomResizedCrop \<Rightarrow> rng \<Rightarrow> image \<Rightarrow> error + ndarray" where
  "RandomResizedCrop_call r rnd img =
     (let sample = np_asarray img
      in if probability r < 1 \<and> probability r < np_uniform 0 1 (rnd 0) then Inr sample
         else
           (case shape sample of
              h # w # rest \<Rightarrow>
                (let image_height = Some (int h); image_width = Some (int w)
                 in case attempt_loop r rnd (int h) (int w) (nat (random_attempts r))
                           \<lparr>target_width = None, target_height = None,
                            target_col = None, target_row = None,
                            draws = (if probability r < 1 then 1 else 0)\<rparr> of
                      Inl e \<Rightarrow> Inl e
                    | Inr looped \<Rightarrow>
                        (let st = (if image_height = None \<or> image_width = None
                                   then centered_fallback h w looped else looped)
                         in case py_add (target_col st) (target_width st) of
                              Inl e \<Rightarrow> Inl e
                            | Inr br_x \<Rightarrow>
                                (case py_add (target_row st) (target_height st) of
                                   Inl e \<Rightarrow> Inl e
                                 | Inr br_y \<Rightarrow>
                                     (case safe_crop (NdArray sample)
                                             (the (target_col st), the (target_row st))
                                             (br_x, br_y) BORDER_CONSTANT 0 of
                                        Inl e \<Rightarrow> Inl e
                                      | Inr crop \<Rightarrow> resize_crop r h w crop))))
            | _ \<Rightarrow> Inl IndexError))"

section \<open>Resize\<close>

text \<open>
  \<open>dst\<close> is \<^verbatim>\<open>self.dst\<close>: \<^verbatim>\<open>None\<close> after construction; the only assignment in the class
  stores the list \<^verbatim>\<open>slices_dst\<close>, whose entries are arrays or \<^verbatim>\<open>None\<close>.
\<close>

record Resize =
  interp :: interpolation
  buffer :: bool
  dsize :: "int \<times> int"
  dst :: "ndarray option list option"
  fx :: real
  fy :: real

definition Resize_init ::
  "int \<times> int \<Rightarrow> real \<Rightarrow> real \<Rightarrow> interpolation \<Rightarrow> bool \<Rightarrow> error + Resize" where
  "Resize_init dsize_arg fx_arg fy_arg interp_arg buffer_arg =
     (if fx_arg < 0 \<or> fy_arg < 0 then Inl AssertionError
      else if fst dsize_arg < 0 \<or> snd dsize_arg < 0 then Inl AssertionError
      else if fx_arg = 0 \<and> fy_arg = 0 \<and> fst dsize_arg = 0 \<and> snd dsize_arg = 0
      then Inl AssertionError
      else Inr \<lparr>interp = interp_arg, buffer = buffer_arg, dsize = dsize_arg, dst = None,
                fx = fx_arg, fy = fy_arg\<rparr>)"

text \<open>\<^verbatim>\<open>np.expand_dims(a, 2)\<close> on a 2-D array.\<close>

definition expand_dims2 :: "ndarray \<Rightarrow> ndarray" where
  "expand_dims2 a =
     \<lparr>shape = shape a @ [1],
      elem = (\<lambda>idx. case idx of [r, c, ch] \<Rightarrow> elem a [r, c] | _ \<Rightarrow> 0)\<rparr>"

text \<open>\<^verbatim>\<open>np.split(sample, sample.shape[2], 2)\<close>: one \<open>H\<times>W\<times>1\<close> array per channel.\<close>

definition np_split_channels :: "ndarray \<Rightarrow> ndarray list" where
  "np_split_channels a =
     map (\<lambda>k. \<lparr>shape = take 2 (shape a) @ [1],
                elem = (\<lambda>idx. case idx of [r, c, ch] \<Rightarrow> elem a [r, c, k] | _ \<Rightarrow> 0)\<rparr>)
         [0..<shape a ! 2]"

text \<open>
  The loop body reads \<^verbatim>\<open>slice[idx]\<close>. No variable \<^verbatim>\<open>slice\<close> is defined in
  \<^verbatim>\<open>__call__\<close> (the list is called \<^verbatim>\<open>slices\<close>), so the name is Python's builtin
  type \<^verbatim>\<open>slice\<close>, and subscripting it raises \<^verbatim>\<open>TypeError\<close>.
\<close>

definition builtin_slice_subscript :: "nat \<Rightarrow> error + ndarray" where
  "builtin_slice_subscript idx = Inl TypeError"

text \<open>
  The loop \<^verbatim>\<open>for idx in range(len(slices)): cv.resize(slice[idx], ..., dst=slices_dst[idx])\<close>.
  The value \<^verbatim>\<open>cv.resize\<close> returns is dropped and the entries of \<open>slices_dst\<close> that are
  \<^verbatim>\<open>None\<close> stay so.
\<close>

fun resize_slices :: "Resize \<Rightarrow> nat list \<Rightarrow> error + unit" where
  "resize_slices r [] = Inr ()"
| "resize_slices r (idx # rest) =
     (case builtin_slice_subscript idx of
        Inl e \<Rightarrow> Inl e
      | Inr src \<Rightarrow>
          (case cv_resize src (dsize r) (fx r) (fy r) (interp r) of
             Inl e \<Rightarrow> Inl e
           | Inr resized \<Rightarrow> resize_slices r rest))"

text \<open>
  \<^verbatim>\<open>np.stack(slices_dst, 2)\<close>: an empty list and an entry that is not an array of
  rank 2 at least raise \<^verbatim>\<open>ValueError\<close>; otherwise the arrays become the channels.
\<close>

definition np_stack2 :: "ndarray option list \<Rightarrow> error + ndarray" where
  "np_stack2 arrays =
     (case arrays of
        [] \<Rightarrow> Inl ValueError
      | first # others \<Rightarrow>
          if list_ex (\<lambda>x. x = None) arrays then Inl ValueError
          else if list_ex (\<lambda>x. shape (the x) \<noteq> shape (the first)) arrays
                  \<or> ndim (the first) < 2 then Inl ValueError
          else Inr \<lparr>shape = take 2 (shape (the first)) @ [length arrays]
                               @ drop 2 (shape (the first)),
                    elem = (\<lambda>idx. case idx of
                        r # c # ch # deeper \<Rightarrow>
                          (if ch < length arrays then elem (the (arrays ! ch)) (r # c # deeper)
                           else 0)
                      | _ \<Rightarrow> 0)\<rparr>)"

text \<open>
  \<^verbatim>\<open>Resize.__call__\<close>: the result and the object after the call (\<^verbatim>\<open>self.dst\<close> may be
  assigned). With buffering on, the branch for at most 4 channels passes \<^verbatim>\<open>self.dst\<close>
  to \<^verbatim>\<open>cv.resize\<close> (which rejects a list), drops the result, and reads
  \<^verbatim>\<open>self.dst.ndim\<close>, which raises \<^verbatim>\<open>AttributeError\<close> on \<^verbatim>\<open>None\<close>.
\<close>

definition Resize_call :: "Resize \<Rightarrow> image \<Rightarrow> error + ndarray \<times> Resize" where
  "Resize_call r img =
     (let sample = np_asarray img
      in if ndim sample < 2 \<or> 3 < ndim sample then Inl AssertionError
         else if ndim sample < 3 \<or> shape sample ! 2 \<le> 4 then
           (if buffer r \<and> dst r \<noteq> None then Inl TypeError
            else
              (case cv_resize sample (dsize r) (fx r) (fy r) (interp r) of
                 Inl e \<Rightarrow> Inl e
               | Inr resized \<Rightarrow>
                   if buffer r then Inl AttributeError
                   else Inr (if ndim resized = 2 then expand_dims2 resized else resized, r)))
         else
           (let slices_dst = (if buffer r then dst r else None);
                slices = np_split_channels sample;
                slices_dst = (case slices_dst of
                                None \<Rightarrow> replicate (length slices) None
                              | Some bufs \<Rightarrow>
                                  if length bufs \<noteq> length slices
                                  then replicate (length slices) None else bufs)
            in case resize_slices r [0..<length slices] of
                 Inl e \<Rightarrow> Inl e
               | Inr u \<Rightarrow>
                   (case np_stack2 slices_dst of
                      Inl e \<Rightarrow> Inl e
                    | Inr stacked \<Rightarrow>
                        Inr (stacked, if buffer r then r\<lparr>dst := Some slices_dst\<rparr> else r))))"

text \<open>
  A 2\<times>2 image with five channels, a 4\<times>4 single-channel image, and the operations
  \<^verbatim>\<open>Resize(dsize=(4, 4))\<close> and
  \<^verbatim>\<open>RandomResizedCrop(output_size=8, input_size=(10, 10), ratio=1.0)\<close> as their
  constructors leave them, with an interpolation kernel that repeats the first pixel.
\<close>

definition first_pixel :: interpolation where
  "first_pixel src out_size idx = elem src (map (\<lambda>i. 0) (shape src))"

definition image_2x2x5 :: ndarray where
  "image_2x2x5 = \<lparr>shape = [2, 2, 5], elem = (\<lambda>idx. 1)\<rparr>"

definition image_4x4 :: ndarray where
  "image_4x4 = \<lparr>shape = [4, 4], elem = (\<lambda>idx. 1)\<rparr>"

definition resize_4x4 :: Resize where
  "resize_4x4 = \<lparr>interp = first_pixel, buffer = False, dsize = (4, 4), dst = None,
                  fx = 0, fy = 0\<rparr>"

definition crop_10_to_8 :: RandomResizedCrop where
  "crop_10_to_8 = \<lparr>output_size = (PyInt 8, PyInt 8),
                    input_size = ((PyInt 10, PyInt 10), (PyInt 10, PyInt 10)),
                    ratio = Some (1, 1), probability = 1, random_attempts = 10,
                    flags = first_pixel\<rparr>"

section \<open>Construction of RandomResizedCrop\<close>

text \<open>
  The test \<^verbatim>\<open>__init__\<close> applies to each entry of \<^verbatim>\<open>output_size\<close> and of the stored
  \<^verbatim>\<open>input_size\<close>: a float in \<open>(0, 1]\<close> or a positive int.
\<close>

definition valid_extent :: "pyval \<Rightarrow> bool" where
  "valid_extent s = (case s of PyFloat x \<Rightarrow> 0 < x \<and> x \<le> 1 | PyInt i \<Rightarrow> 0 < i | _ \<Rightarrow> False)"

text \<open>The value of a Python number (only applied to values checked to be numbers).\<close>

definition num_val :: "pyval \<Rightarrow> real" where
  "num_val v = (case v of PyInt i \<Rightarrow> of_int i | PyFloat x \<Rightarrow> x | _ \<Rightarrow> 0)"

text \<open>\<^verbatim>\<open>min\<close> and \<^verbatim>\<open>max\<close> of a pair: the first of two equal items is returned.\<close>

definition py_min :: "pyval \<Rightarrow> pyval \<Rightarrow> pyval" where
  "py_min a b = (if num_val b < num_val a then b else a)"

definition py_max :: "pyval \<Rightarrow> pyval \<Rightarrow> pyval" where
  "py_max a b = (if num_val a < num_val b then b else a)"

definition is_tuple2 :: "pyval \<Rightarrow> bool" where
  "is_tuple2 v = (case v of PyTuple xs \<Rightarrow> length xs = 2 | _ \<Rightarrow> False)"

definition is_list2 :: "pyval \<Rightarrow> bool" where
  "is_list2 v = (case v of PyList xs \<Rightarrow> length xs = 2 | _ \<Rightarrow> False)"

text \<open>
  The output size: the same pair check as for the tile size of \<^verbatim>\<open>Tile\<close> (the source
  repeats the code), followed by the test of each entry.
\<close>

definition rrc_output_size :: "pyval \<Rightarrow> error + pyval \<times> pyval" where
  "rrc_output_size output_size_arg =
     (case tile_size_pair output_size_arg of
        Inl e \<Rightarrow> Inl e
      | Inr sz \<Rightarrow>
          if \<not> valid_extent (fst sz) \<or> \<not> valid_extent (snd sz) then Inl AssertionError
          else Inr sz)"

text \<open>The aspect ratio in ratio mode: a pair of floats, ordered, or one float.\<close>

definition rrc_ratio :: "pyval \<Rightarrow> error + real \<times> real" where
  "rrc_ratio ratio_arg =
     (case seq_items ratio_arg of
        Some rs \<Rightarrow>
          if length rs \<noteq> 2 then Inl AssertionError
          else if \<not> list_all is_float rs then Inl AssertionError
          else Inr (min (num_val (rs ! 0)) (num_val (rs ! 1)),
                    max (num_val (rs ! 0)) (num_val (rs ! 1)))
      | None \<Rightarrow> (case ratio_arg of PyFloat x \<Rightarrow> Inr (x, x) | _ \<Rightarrow> Inl AssertionError))"

text \<open>
  The input size and the ratio. In the pair-of-pairs branch the source stores a flat
  4-tuple of numbers in \<^verbatim>\<open>self.input_size\<close>, and the validation loop that follows
  (\<^verbatim>\<open>for t in self.input_size: for s in t\<close>) iterates over a number, which raises
  \<^verbatim>\<open>TypeError\<close>.
\<close>

definition rrc_input_size ::
  "pyval \<Rightarrow> pyval \<Rightarrow> error + ((pyval \<times> pyval) \<times> (pyval \<times> pyval)) \<times> (real \<times> real) option" where
  "rrc_input_size input_size_arg ratio_arg =
     (case seq_items input_size_arg of
        None \<Rightarrow> Inl AssertionError
      | Some xs \<Rightarrow>
          if length xs \<noteq> 2 then Inl AssertionError
          else if list_all is_int xs \<or> list_all is_float xs then
            (case rrc_ratio ratio_arg of
               Inl e \<Rightarrow> Inl e
             | Inr rt \<Rightarrow>
                 (let lo = py_min (xs ! 0) (xs ! 1); hi = py_max (xs ! 0) (xs ! 1)
                  in if \<not> valid_extent lo \<or> \<not> valid_extent hi then Inl AssertionError
                     else Inr (((lo, lo), (hi, hi)), Some rt)))
          else if list_all is_tuple2 xs \<or> list_all is_list2 xs then
            (if (case seq_items ratio_arg of Some rs \<Rightarrow> rs \<noteq> [] | None \<Rightarrow> False)
             then Inl AssertionError
             else if \<not> list_all (\<lambda>t. list_all (\<lambda>s. is_int s \<or> is_float s) (the (seq_items t))) xs
             then Inl AssertionError
             else Inl TypeError)
          else Inl AssertionError)"

definition RandomResizedCrop_init ::
  "pyval \<Rightarrow> pyval \<Rightarrow> pyval \<Rightarrow> real \<Rightarrow> int \<Rightarrow> interpolation \<Rightarrow> error + RandomResizedCrop" where
  "RandomResizedCrop_init output_size_arg input_size_arg ratio_arg probability_arg
       random_attempts_arg flags_arg =
     (case rrc_output_size output_size_arg of
        Inl e \<Rightarrow> Inl e
      | Inr osz \<Rightarrow>
          (case rrc_input_size input_size_arg ratio_arg of
             Inl e \<Rightarrow> Inl e
           | Inr (isz, rt) \<Rightarrow>
               if probability_arg < 0 \<or> 1 < probability_arg then Inl AssertionError
               else if random_attempts_arg \<le> 0 then Inl AssertionError
               else Inr \<lparr>output_size = osz, input_size = isz, ratio = rt,
                         probability = probability_arg,
                         random_attempts = random_attempts_arg, flags = flags_arg\<rparr>))"

section \<open>Properties of Duplicator\<close>

lemma duplicate_loop_eq:
  "duplicate_loop d n s acc = acc @ replicate n s"
proof (induction n arbitrary: acc)
  case 0
  show ?case by simp
next
  case (Suc n)
  have "duplicate_loop d (Suc n) s acc = (acc @ [s]) @ replicate n s"
    by (simp add: Suc.IH copy_copy_def copy_deepcopy_def)
  then show ?case by (simp add: replicate_app_Cons_same)
qed

lemma Duplicator_call_eq:
  "Duplicator_call d s = SList (replicate (nat (count d)) s)"
  by (simp add: Duplicator_call_def duplicate_loop_eq)

text \<open>
  Claim C8. For a count \<open>k > 0\<close> the constructor succeeds, the call returns a list of
  exactly \<open>k\<close> elements, \<open>invert\<close> of that list is the original sample, \<open>invert\<close> of any
  list of length \<open>k\<close> is its first element, and \<open>invert\<close> raises on a non-list and on a
  list of any other length.
\<close>

theorem Duplicator_roundtrip:
  assumes "0 < k"
  shows "\<exists>d. Duplicator_init k dc = Inr d
           \<and> (\<exists>xs. Duplicator_call d x = SList xs \<and> int (length xs) = k)
           \<and> Duplicator_invert d (Duplicator_call d x) = Inr x
           \<and> (\<forall>y ys. int (length (y # ys)) = k \<longrightarrow> Duplicator_invert d (SList (y # ys)) = Inr y)
           \<and> (\<forall>ys. int (length ys) \<noteq> k \<longrightarrow> Duplicator_invert d (SList ys) = Inl AssertionError)
           \<and> (\<forall>v. Duplicator_invert d (Single v) = Inl AssertionError)"
proof -
  define d where "d = \<lparr>count = k, deepcopy = dc\<rparr>"
  have init: "Duplicator_init k dc = Inr d"
    using assms by (simp add: Duplicator_init_def d_def)
  have cnt: "count d = k" by (simp add: d_def)
  obtain m where m: "nat k = Suc m"
    using assms by (cases "nat k") auto
  have len: "int (length (replicate (nat k) x)) = k"
    using assms by simp
  have call: "\<exists>xs. Duplicator_call d x = SList xs \<and> int (length xs) = k"
    using len by (simp add: Duplicator_call_eq cnt)
  have inv: "Duplicator_invert d (Duplicator_call d x) = Inr x"
    using len by (simp add: Duplicator_call_eq cnt Duplicator_invert_def m)
  have first: "\<forall>y ys. int (length (y # ys)) = k \<longrightarrow> Duplicator_invert d (SList (y # ys)) = Inr y"
    by (simp add: Duplicator_invert_def cnt)
  have other: "\<forall>ys. int (length ys) \<noteq> k \<longrightarrow> Duplicator_invert d (SList ys) = Inl AssertionError"
    by (simp add: Duplicator_invert_def cnt)
  have nonlist: "\<forall>v. Duplicator_invert d (Single v) = Inl AssertionError"
    by (simp add: Duplicator_invert_def)
  from init call inv first other nonlist show ?thesis by blast
qed

theorem Duplicator_roundtrip_witness:
  "0 < (3::int)
   \<and> (\<exists>d. Duplicator_init 3 False = Inr d
        \<and> Duplicator_call d (Single (7::int)) = SList [Single 7, Single 7, Single 7]
        \<and> Duplicator_invert d (SList [Single 7, Single 7, Single 7]) = Inr (Single 7)
        \<and> Duplicator_invert d (SList [Single 7, Single 7]) = Inl AssertionError
        \<and> Duplicator_invert d (Single 7) = Inl AssertionError)"
  using Duplicator_roundtrip [of 3 False "Single (7::int)"]
  by (simp add: Duplicator_init_def Duplicator_call_eq Duplicator_invert_def
      numeral_3_eq_3)

section \<open>Properties of Compose\<close>

lemma invert_loop_append:
  "invert_loop (xs @ ys) s =
     (case invert_loop xs s of Inl e \<Rightarrow> Inl e | Inr s' \<Rightarrow> invert_loop ys s')"
  by (induction xs arbitrary: s) (auto split: option.splits sum.splits)

lemma Compose_invert_snoc:
  "Compose_invert (ts @ [t]) s =
     (case invert_attr t of
        None \<Rightarrow> Inl AssertionError
      | Some t_invert \<Rightarrow>
          (case t_invert s of Inl e \<Rightarrow> Inl e | Inr s' \<Rightarrow> Compose_invert ts s'))"
  by (simp add: Compose_invert_def split: option.splits sum.splits)

lemma Compose_invert_pure:
  "length gs = length ts \<Longrightarrow>
   \<forall>i<length ts. invert_attr (ts ! i) = Some (\<lambda>x. Inr ((gs ! i) x)) \<Longrightarrow>
   Compose_invert ts s = Inr (foldr (\<lambda>g x. g x) gs s)"
proof (induction ts arbitrary: gs)
  case Nil
  then show ?case by (simp add: Compose_invert_def)
next
  case (Cons t ts)
  then obtain g gs' where gs: "gs = g # gs'"
    by (cases gs) auto
  have len: "length gs' = length ts"
    using Cons.prems(1) gs by simp
  have rest: "\<forall>i<length ts. invert_attr (ts ! i) = Some (\<lambda>x. Inr ((gs' ! i) x))"
  proof (intro allI impI)
    fix i assume "i < length ts"
    then have "invert_attr ((t # ts) ! Suc i) = Some (\<lambda>x. Inr ((gs ! Suc i) x))"
      using Cons.prems(2) by (metis Suc_less_eq length_Cons)
    then show "invert_attr (ts ! i) = Some (\<lambda>x. Inr ((gs' ! i) x))"
      by (simp add: gs)
  qed
  have head: "invert_attr t = Some (\<lambda>x. Inr (g x))"
    using Cons.prems(2) gs by fastforce
  have ih: "invert_loop (rev ts) s = Inr (foldr (\<lambda>g x. g x) gs' s)"
    using Cons.IH [OF len rest] by (simp add: Compose_invert_def)
  show ?case
    by (simp add: Compose_invert_def invert_loop_append ih head gs)
qed

lemma invert_loop_missing:
  "t \<in> set xs \<Longrightarrow> invert_attr t = None \<Longrightarrow> \<exists>e. invert_loop xs s = Inl e"
proof (induction xs arbitrary: s)
  case Nil
  then show ?case by simp
next
  case (Cons x xs)
  show ?case
  proof (cases "invert_attr x")
    case None
    then show ?thesis by simp
  next
    case (Some f)
    then have "t \<in> set xs"
      using Cons.prems by auto
    then have "\<And>s'. \<exists>e. invert_loop xs s' = Inl e"
      using Cons.IH Cons.prems(2) by blast
    then show ?thesis
      by (cases "f s") (simp_all add: Some)
  qed
qed

text \<open>
  Claim C7. \<open>Compose.invert\<close> runs the inverts in reverse construction order: the
  operation constructed last is inverted first and its result is handed to the inverts
  of the operations before it; when every operation has an invert that returns, the
  result is the first operation's invert applied to the second's, and so on down to the
  last one applied to the sample. Whenever some operation of the chain has no invert,
  the call raises, whatever the other operations support.
\<close>

theorem Compose_invert_reverse_order:
  "(Compose_invert (ts @ [t]) s =
      (case invert_attr t of
         None \<Rightarrow> Inl AssertionError
       | Some t_invert \<Rightarrow>
           (case t_invert s of Inl e \<Rightarrow> Inl e | Inr s' \<Rightarrow> Compose_invert ts s')))
   \<and> (length gs = length ts
        \<and> (\<forall>i<length ts. invert_attr (ts ! i) = Some (\<lambda>x. Inr ((gs ! i) x)))
      \<longrightarrow> Compose_invert ts s = Inr (foldr (\<lambda>g x. g x) gs s))
   \<and> ((\<exists>u\<in>set ts. invert_attr u = None) \<longrightarrow> (\<exists>e. Compose_invert ts s = Inl e))"
proof (intro conjI impI)
  show "Compose_invert (ts @ [t]) s =
      (case invert_attr t of
         None \<Rightarrow> Inl AssertionError
       | Some t_invert \<Rightarrow>
           (case t_invert s of Inl e \<Rightarrow> Inl e | Inr s' \<Rightarrow> Compose_invert ts s'))"
    by (rule Compose_invert_snoc)
next
  assume "length gs = length ts
        \<and> (\<forall>i<length ts. invert_attr (ts ! i) = Some (\<lambda>x. Inr ((gs ! i) x)))"
  then show "Compose_invert ts s = Inr (foldr (\<lambda>g x. g x) gs s)"
    using Compose_invert_pure by blast
next
  assume "\<exists>u\<in>set ts. invert_attr u = None"
  then obtain u where "u \<in> set ts" "invert_attr u = None"
    by blast
  then have "u \<in> set (rev ts)" by simp
  then show "\<exists>e. Compose_invert ts s = Inl e"
    unfolding Compose_invert_def
    using invert_loop_missing \<open>invert_attr u = None\<close> by blast
qed

theorem Compose_invert_reverse_order_witness:
  "length [map_sample (\<lambda>v. v - 1), map_sample (\<lambda>v. v * 10)] = length [dec_op, scale_op]
   \<and> Compose_invert [dec_op, scale_op] (Single 5) = Inr (Single 49)
   \<and> (\<exists>u\<in>set [one_way_op, dec_op]. invert_attr u = None)
   \<and> Compose_invert [one_way_op, dec_op] (Single 5) = Inl AssertionError"
  using Compose_invert_reverse_order
          [of "[dec_op]" scale_op "Single 5"
              "[map_sample (\<lambda>v. v - 1), map_sample (\<lambda>v. v * 10)]"]
        Compose_invert_reverse_order
          [of "[dec_op, scale_op]" scale_op "Single 5"
              "[map_sample (\<lambda>v. v - 1), map_sample (\<lambda>v. v * 10)]"]
        Compose_invert_reverse_order
          [of "[one_way_op, dec_op]" dec_op "Single 5" "[]"]
  by (simp add: Compose_invert_def dec_op_def scale_op_def one_way_op_def)

section \<open>Properties of the safe crop and of CenterCrop\<close>







section \<open>Properties of Tile\<close>







lemma Tile_init_rejects:
  assumes "\<not> is_float m \<or> (\<exists>x. m = PyFloat x \<and> x < 0)"
  shows "\<exists>e. Tile_init imp ts ov m oo b bv = Inl e"
proof (cases "tile_size_pair ts")
  case (Inl e)
  then show ?thesis by (simp add: Tile_init_def)
next
  case (Inr sz)
  show ?thesis
  proof (cases m)
    case (PyFloat x)
    then have "x < 0" using assms by (simp add: is_float_def)
    then show ?thesis
      by (cases ov) (simp_all add: Tile_init_def Inr PyFloat)
  qed (cases ov; simp add: Tile_init_def Inr)+
qed

lemma tile_size_pair_accepted:
  "accepted_tile_size ts \<Longrightarrow> \<exists>sz. tile_size_pair ts = Inr sz"
proof (cases "seq_items ts")
  case None
  assume "accepted_tile_size ts"
  then show ?thesis
    by (simp add: accepted_tile_size_def tile_size_pair_def None)
next
  case (Some xs)
  assume "accepted_tile_size ts"
  then have len: "length xs = 2" and ty: "list_all is_int xs \<or> list_all is_float xs"
    by (simp_all add: accepted_tile_size_def Some)
  from len obtain a b where "xs = [a, b]"
    by (cases xs; cases "tl xs"; auto)
  then show ?thesis
    using ty by (auto simp add: tile_size_pair_def Some)
qed

lemma Tile_init_accepts:
  assumes "accepted_tile_size ts" and "0 \<le> ovl" and "ovl < 1"
    and "resolve_border imp b = Inr bt" and "0 \<le> x"
  shows "\<exists>t. Tile_init imp ts (PyFloat ovl) (PyFloat x) oo b bv = Inr t \<and> min_mask_iou t = x"
proof -
  obtain sz where "tile_size_pair ts = Inr sz"
    using tile_size_pair_accepted [OF assms(1)] by blast
  then show ?thesis
    using assms(2-5) by (simp add: Tile_init_def)
qed

text \<open>
  Claim C10. Construction raises when \<open>min_mask_iou\<close> is not a float or is negative.
  With an accepted tile size, a float overlap in \<open>[0, 1)\<close> and a border type that
  resolves, it succeeds for every float \<open>min_mask_iou \<ge> 0\<close> and stores it, values
  above 1 included: the third test of that check reads the overlap, which is below 1
  by then.
\<close>

theorem Tile_init_min_mask_iou:
  "((\<not> is_float m \<or> (\<exists>x. m = PyFloat x \<and> x < 0))
      \<longrightarrow> (\<exists>e. Tile_init imp ts ov m oo b bv = Inl e))
   \<and> (accepted_tile_size ts \<and> 0 \<le> ovl \<and> ovl < 1 \<and> resolve_border imp b = Inr bt \<and> 0 \<le> x
      \<longrightarrow> (\<exists>t. Tile_init imp ts (PyFloat ovl) (PyFloat x) oo b bv = Inr t \<and> min_mask_iou t = x))"
proof (intro conjI impI)
  assume "\<not> is_float m \<or> (\<exists>x. m = PyFloat x \<and> x < 0)"
  then show "\<exists>e. Tile_init imp ts ov m oo b bv = Inl e"
    by (rule Tile_init_rejects)
next
  assume "accepted_tile_size ts \<and> 0 \<le> ovl \<and> ovl < 1 \<and> resolve_border imp b = Inr bt \<and> 0 \<le> x"
  then show "\<exists>t. Tile_init imp ts (PyFloat ovl) (PyFloat x) oo b bv = Inr t \<and> min_mask_iou t = x"
    using Tile_init_accepts by blast
qed

theorem Tile_init_min_mask_iou_witness:
  "(\<exists>x. PyFloat (- 1 / 2) = PyFloat x \<and> x < 0)
   \<and> (\<exists>e. Tile_init (\<lambda>s. Inl AssertionError) (PyInt 4) (PyFloat 0) (PyFloat (- 1 / 2)) False
        (BorderType BORDER_CONSTANT) 0 = Inl e)
   \<and> accepted_tile_size (PyInt 4) \<and> (0::real) \<le> 5 / 2
   \<and> resolve_border (\<lambda>s. Inl AssertionError) (BorderType BORDER_CONSTANT) = Inr BORDER_CONSTANT
   \<and> (\<exists>t. Tile_init (\<lambda>s. Inl AssertionError) (PyInt 4) (PyFloat 0) (PyFloat (5 / 2)) False
              (BorderType BORDER_CONSTANT) 0 = Inr t \<and> min_mask_iou t = 5 / 2)"
proof -
  have neg: "\<not> is_float (PyFloat (- 1 / 2)) \<or> (\<exists>x. PyFloat (- 1 / 2) = PyFloat x \<and> x < 0)"
    by simp
  have ok: "accepted_tile_size (PyInt 4) \<and> (0::real) \<le> 0 \<and> (0::real) < 1
            \<and> resolve_border (\<lambda>s. Inl AssertionError) (BorderType BORDER_CONSTANT)
                = Inr BORDER_CONSTANT
            \<and> (0::real) \<le> 5 / 2"
    by (simp add: accepted_tile_size_def seq_items_def is_int_def resolve_border_def)
  note inst = Tile_init_min_mask_iou [of "PyFloat (- 1 / 2)" "\<lambda>s. Inl AssertionError" "PyInt 4"
          "PyFloat 0" False "BorderType BORDER_CONSTANT" 0 0 BORDER_CONSTANT "5 / 2"]
  from inst neg have r: "\<exists>e. Tile_init (\<lambda>s. Inl AssertionError) (PyInt 4) (PyFloat 0)
        (PyFloat (- 1 / 2)) False (BorderType BORDER_CONSTANT) 0 = Inl e"
    by blast
  from inst ok have a: "\<exists>t. Tile_init (\<lambda>s. Inl AssertionError) (PyInt 4) (PyFloat 0)
        (PyFloat (5 / 2)) False (BorderType BORDER_CONSTANT) 0 = Inr t \<and> min_mask_iou t = 5 / 2"
    by blast
  from neg ok r a show ?thesis by simp
qed














section \<open>Properties of Transpose\<close>

lemma index_of_nth: "distinct xs \<Longrightarrow> i < length xs \<Longrightarrow> index_of xs (xs ! i) = i"
proof (induction xs arbitrary: i)
  case Nil
  then show ?case by simp
next
  case (Cons x xs)
  show ?case
  proof (cases i)
    case 0
    then show ?thesis by simp
  next
    case (Suc k)
    then have "xs ! k \<in> set xs" using Cons.prems by simp
    then have "x \<noteq> xs ! k" using Cons.prems by auto
    then show ?thesis using Suc Cons by simp
  qed
qed

lemma index_of_less: "j \<in> set xs \<Longrightarrow> index_of xs j < length xs"
  by (induction xs) auto

lemma nth_index_of: "j \<in> set xs \<Longrightarrow> xs ! index_of xs j = j"
  by (induction xs) auto

lemma perm_set:
  assumes "distinct xs" and "\<forall>x\<in>set xs. x < length xs"
  shows "set xs = {0..<length xs}"
proof -
  have "set xs \<subseteq> {0..<length xs}" using assms(2) by auto
  moreover have "card (set xs) = card {0..<length xs}"
    using assms(1) by (simp add: distinct_card)
  ultimately show ?thesis
    by (simp add: card_subset_eq)
qed

lemma normalize_axis_less: "axis_in_range n a \<Longrightarrow> normalize_axis n a < n"
  by (auto simp add: axis_in_range_def normalize_axis_def)

lemma fill_axes_inv_ok:
  assumes "\<forall>p\<in>set ps. axis_in_range n (snd p)"
    and "distinct (map (\<lambda>p. normalize_axis n (snd p)) ps)"
    and "length inv0 = n"
  shows "\<exists>inv'. fill_axes_inv ps inv0 = Inr inv' \<and> length inv' = n
           \<and> (\<forall>p\<in>set ps. inv' ! normalize_axis n (snd p) = Some (int (fst p)))
           \<and> (\<forall>k. k \<notin> (\<lambda>p. normalize_axis n (snd p)) ` set ps \<longrightarrow> inv' ! k = inv0 ! k)"
  using assms
proof (induction ps arbitrary: inv0)
  case Nil
  then show ?case by simp
next
  case (Cons p ps)
  obtain i a where p: "p = (i, a)" by (cases p) auto
  let ?na = "normalize_axis n a"
  let ?inv1 = "inv0[?na := Some (int i)]"
  have rng: "axis_in_range n a" using Cons.prems(1) p by simp
  have na: "?na < n" using rng by (rule normalize_axis_less)
  have fresh: "?na \<notin> (\<lambda>p. normalize_axis n (snd p)) ` set ps"
    using Cons.prems(2) p by auto
  have "\<exists>inv'. fill_axes_inv ps ?inv1 = Inr inv' \<and> length inv' = n
           \<and> (\<forall>p\<in>set ps. inv' ! normalize_axis n (snd p) = Some (int (fst p)))
           \<and> (\<forall>k. k \<notin> (\<lambda>p. normalize_axis n (snd p)) ` set ps \<longrightarrow> inv' ! k = ?inv1 ! k)"
    using Cons.prems by (intro Cons.IH) simp_all
  then obtain inv' where r: "fill_axes_inv ps ?inv1 = Inr inv'" and len: "length inv' = n"
    and set: "\<forall>p\<in>set ps. inv' ! normalize_axis n (snd p) = Some (int (fst p))"
    and keep: "\<forall>k. k \<notin> (\<lambda>p. normalize_axis n (snd p)) ` set ps \<longrightarrow> inv' ! k = ?inv1 ! k"
    by blast
  have run: "fill_axes_inv (p # ps) inv0 = Inr inv'"
    using r rng Cons.prems(3) by (simp add: p)
  have here: "inv' ! ?na = Some (int i)"
    using keep fresh na Cons.prems(3) by simp
  have other: "\<forall>k. k \<notin> (\<lambda>p. normalize_axis n (snd p)) ` set (p # ps) \<longrightarrow> inv' ! k = inv0 ! k"
    using keep p by auto
  show ?case
    using run len set here other p by auto
qed

lemma index_of_inj:
  assumes "j \<in> set xs" "k \<in> set xs" "index_of xs j = index_of xs k"
  shows "j = k"
  using assms nth_index_of by metis

lemma np_transpose_ok:
  assumes "\<not> list_ex (\<lambda>v. v = None) axs" and "length axs = ndim a"
    and "\<not> list_ex (\<lambda>v. \<not> axis_in_range (ndim a) (the v)) axs"
    and "map (\<lambda>v. normalize_axis (ndim a) (the v)) axs = p" and "distinct p"
  shows "np_transpose a axs =
           Inr \<lparr>shape = map (\<lambda>k. shape a ! k) p,
                elem = (\<lambda>idx. elem a (map (\<lambda>j. idx ! index_of p j) [0..<ndim a]))\<rparr>"
  unfolding np_transpose_def using assms by (simp add: Let_def)

text \<open>
  Claim C9. For axes that are a permutation and an array of matching rank, the
  constructor succeeds and stores the inverse permutation (\<open>axes_inv[axes[i]] = i\<close>),
  the call and then \<open>invert\<close> both return, and the result has the shape of the
  original array and the same element at every index.
\<close>

theorem Transpose_roundtrip:
  assumes va: "valid_axes axs" and nd: "ndim x = length axs"
  shows "\<exists>t y z. Transpose_init axs = Inr t
           \<and> (\<forall>i<length axs. axes_inv t ! normalize_axis (length axs) (axs ! i) = Some (int i))
           \<and> Transpose_call t x = Inr y
           \<and> Transpose_invert t y = Inr z \<and> shape z = shape x
           \<and> (\<forall>idx. length idx = ndim x \<longrightarrow> elem z idx = elem x idx)"
proof -
  define n where "n = length axs"
  define nax where "nax = map (normalize_axis n) axs"
  define niv where "niv = map (index_of nax) [0..<n]"
  have rng: "\<forall>a\<in>set axs. axis_in_range n a"
    using va by (simp add: valid_axes_def n_def list_all_iff)
  have dist: "distinct nax"
    using va by (simp add: valid_axes_def n_def nax_def)
  have len_nax: "length nax = n" by (simp add: nax_def n_def)
  have nax_less: "\<forall>k\<in>set nax. k < length nax"
    using rng normalize_axis_less by (auto simp add: nax_def n_def)
  have set_nax: "set nax = {0..<n}"
    using perm_set [OF dist nax_less] len_nax by simp
  have idx_less: "\<And>j. j < n \<Longrightarrow> index_of nax j < n"
    using index_of_less [of _ nax] set_nax len_nax by simp
  have nth_idx: "\<And>j. j < n \<Longrightarrow> nax ! index_of nax j = j"
    using nth_index_of [of _ nax] set_nax by simp
  have len_niv: "length niv = n" by (simp add: niv_def)
  have niv_nth: "\<And>j. j < n \<Longrightarrow> niv ! j = index_of nax j"
    by (simp add: niv_def)
  have dist_niv: "distinct niv"
    unfolding niv_def distinct_map
    using index_of_inj [of _ nax] set_nax by (auto simp add: inj_on_def)
  have idx_niv: "\<And>j. j < n \<Longrightarrow> index_of niv (index_of nax j) = j"
  proof -
    fix j assume j: "j < n"
    have "index_of niv (niv ! j) = j"
      using index_of_nth [OF dist_niv] j len_niv by simp
    then show "index_of niv (index_of nax j) = j"
      using niv_nth [OF j] by simp
  qed
  \<comment> \<open>the constructor\<close>
  have no_oob: "\<not> list_ex (\<lambda>a. int (length axs) \<le> a) axs"
    using rng by (auto simp add: list_ex_iff axis_in_range_def n_def)
  have zsnd: "map snd (zip [0..<n] axs) = axs"
    by (simp add: n_def)
  have "\<exists>inv'. fill_axes_inv (zip [0..<n] axs) (replicate n None) = Inr inv' \<and> length inv' = n
           \<and> (\<forall>p\<in>set (zip [0..<n] axs). inv' ! normalize_axis n (snd p) = Some (int (fst p)))
           \<and> (\<forall>k. k \<notin> (\<lambda>p. normalize_axis n (snd p)) ` set (zip [0..<n] axs)
                  \<longrightarrow> inv' ! k = replicate n None ! k)"
  proof (rule fill_axes_inv_ok)
    show "\<forall>p\<in>set (zip [0..<n] axs). axis_in_range n (snd p)"
      using rng by (auto dest: set_zip_rightD)
    have "map (\<lambda>p. normalize_axis n (snd p)) (zip [0..<n] axs) = map (normalize_axis n) (map snd (zip [0..<n] axs))"
      by simp
    then show "distinct (map (\<lambda>p. normalize_axis n (snd p)) (zip [0..<n] axs))"
      using dist zsnd by (simp add: nax_def del: map_map)
    show "length (replicate n None) = n" by simp
  qed
  then obtain inv' where fill: "fill_axes_inv (zip [0..<n] axs) (replicate n None) = Inr inv'"
    and len_inv: "length inv' = n"
    and filled: "\<forall>p\<in>set (zip [0..<n] axs). inv' ! normalize_axis n (snd p) = Some (int (fst p))"
    by blast
  have inv_at: "\<And>i. i < n \<Longrightarrow> inv' ! (nax ! i) = Some (int i)"
  proof -
    fix i assume i: "i < n"
    then have "(i, axs ! i) = zip [0..<n] axs ! i" and "i < length (zip [0..<n] axs)"
      by (simp_all add: n_def)
    then have "(i, axs ! i) \<in> set (zip [0..<n] axs)"
      by (metis nth_mem)
    then have "inv' ! normalize_axis n (axs ! i) = Some (int i)"
      using filled by force
    then show "inv' ! (nax ! i) = Some (int i)"
      using i by (simp add: nax_def n_def)
  qed
  have inv_eq: "inv' = map (\<lambda>j. Some (int (index_of nax j))) [0..<n]"
  proof (rule nth_equalityI)
    show "length inv' = length (map (\<lambda>j. Some (int (index_of nax j))) [0..<n])"
      by (simp add: len_inv)
    fix j assume "j < length inv'"
    then have j: "j < n" by (simp add: len_inv)
    have "inv' ! (nax ! index_of nax j) = Some (int (index_of nax j))"
      using inv_at [OF idx_less [OF j]] .
    then show "inv' ! j = map (\<lambda>j. Some (int (index_of nax j))) [0..<n] ! j"
      using nth_idx [OF j] j by simp
  qed
  define t where "t = \<lparr>axes = axs, axes_inv = inv'\<rparr>"
  have init: "Transpose_init axs = Inr t"
    using no_oob fill by (simp add: Transpose_init_def t_def n_def)
  \<comment> \<open>the forward call\<close>
  define y where "y = \<lparr>shape = map (\<lambda>k. shape x ! k) nax,
                       elem = (\<lambda>idx. elem x (map (\<lambda>j. idx ! index_of nax j) [0..<n]))\<rparr>"
  have fwd_rng: "\<not> list_ex (\<lambda>v. \<not> axis_in_range (ndim x) (the v)) (map Some axs)"
    using rng nd by (auto simp add: list_ex_iff n_def)
  have fwd_perm: "map (\<lambda>v. normalize_axis (ndim x) (the v)) (map Some axs) = nax"
    by (simp add: nax_def nd n_def comp_def)
  have fwd_none: "\<not> list_ex (\<lambda>v. v = None) (map Some axs)"
    by (simp add: list_ex_iff)
  have fwd_len: "length (map Some axs) = ndim x"
    using nd by simp
  have call: "Transpose_call t x = Inr y"
    unfolding Transpose_call_def
    using np_transpose_ok [OF fwd_none fwd_len fwd_rng fwd_perm dist]
    by (simp add: t_def y_def nd n_def)
  \<comment> \<open>the inverse call\<close>
  have ndy: "ndim y = n" by (simp add: y_def ndim_def len_nax)
  define z where "z = \<lparr>shape = map (\<lambda>k. shape y ! k) niv,
                       elem = (\<lambda>idx. elem y (map (\<lambda>j. idx ! index_of niv j) [0..<n]))\<rparr>"
  have inv_none: "\<not> list_ex (\<lambda>v. v = None) inv'"
    by (auto simp add: inv_eq list_ex_iff)
  have inv_rng: "\<not> list_ex (\<lambda>v. \<not> axis_in_range (ndim y) (the v)) inv'"
    using idx_less by (auto simp add: inv_eq list_ex_iff axis_in_range_def ndy)
  have inv_perm: "map (\<lambda>v. normalize_axis (ndim y) (the v)) inv' = niv"
    by (simp add: inv_eq niv_def normalize_axis_def comp_def ndy)
  have inv_len: "length inv' = ndim y"
    by (simp add: len_inv ndy)
  have invert: "Transpose_invert t y = Inr z"
    unfolding Transpose_invert_def
    using np_transpose_ok [OF _ inv_len inv_rng inv_perm dist_niv] inv_none
    by (simp add: t_def z_def ndy)
  \<comment> \<open>the round trip\<close>
  have lenx: "length (shape x) = n"
    using nd by (simp add: ndim_def n_def)
  have "shape z = map (\<lambda>j. shape x ! j) [0..<n]"
  proof -
    have "shape z = map (\<lambda>j. map (\<lambda>k. shape x ! k) nax ! index_of nax j) [0..<n]"
      by (simp add: z_def y_def niv_def comp_def)
    also have "\<dots> = map (\<lambda>j. shape x ! j) [0..<n]"
      using idx_less nth_idx len_nax by (intro map_cong) simp_all
    finally show ?thesis .
  qed
  then have shape_eq: "shape z = shape x"
    using lenx map_nth [of "shape x"] by simp
  have elem_eq: "\<forall>idx. length idx = ndim x \<longrightarrow> elem z idx = elem x idx"
  proof (intro allI impI)
    fix idx :: "nat list"
    assume "length idx = ndim x"
    then have li: "length idx = n" using nd by (simp add: n_def)
    have "elem z idx = elem x (map (\<lambda>j. map (\<lambda>k. idx ! index_of niv k) [0..<n] ! index_of nax j) [0..<n])"
      by (simp add: z_def y_def)
    also have "map (\<lambda>j. map (\<lambda>k. idx ! index_of niv k) [0..<n] ! index_of nax j) [0..<n]
                 = map (\<lambda>j. idx ! j) [0..<n]"
      using idx_less idx_niv by (intro map_cong) simp_all
    also have "\<dots> = idx"
      using li map_nth [of idx] by simp
    finally show "elem z idx = elem x idx" .
  qed
  have stored: "\<forall>i<length axs. axes_inv t ! normalize_axis (length axs) (axs ! i) = Some (int i)"
    using inv_at by (simp add: t_def nax_def n_def)
  from init stored call invert shape_eq elem_eq show ?thesis by blast
qed

theorem Transpose_roundtrip_witness:
  "valid_axes [1, 0, 2] \<and> ndim array_2x3x4 = length [1, 0, 2 :: int]
   \<and> (\<exists>t y z. Transpose_init [1, 0, 2] = Inr t
          \<and> Transpose_call t array_2x3x4 = Inr y
          \<and> Transpose_invert t y = Inr z \<and> shape z = [2, 3, 4]
          \<and> elem z [1, 2, 3] = 123)"
proof -
  have va: "valid_axes [1, 0, 2]"
    by (simp add: valid_axes_def axis_in_range_def normalize_axis_def)
  have nd: "ndim array_2x3x4 = length [1, 0, 2 :: int]"
    by (simp add: ndim_def array_2x3x4_def)
  obtain t y z where r: "Transpose_init [1, 0, 2] = Inr t" "Transpose_call t array_2x3x4 = Inr y"
      "Transpose_invert t y = Inr z" "shape z = shape array_2x3x4"
      "\<forall>idx. length idx = ndim array_2x3x4 \<longrightarrow> elem z idx = elem array_2x3x4 idx"
    using Transpose_roundtrip [OF va nd] by blast
  have "elem z [1, 2, 3] = elem array_2x3x4 [1, 2, 3]"
    using r(5) nd by simp
  then have "elem z [1, 2, 3] = 123" "shape z = [2, 3, 4]"
    using r(4) by (simp_all add: array_2x3x4_def)
  with va nd r(1-3) show ?thesis by blast
qed

section \<open>Properties of Resize and RandomResizedCrop\<close>

lemma resize_slices_nonempty: "idxs \<noteq> [] \<Longrightarrow> resize_slices r idxs = Inl TypeError"
  by (cases idxs) (simp_all add: builtin_slice_subscript_def)

lemma Resize_call_many_channels:
  assumes "ndim (np_asarray img) = 3" and "4 < shape (np_asarray img) ! 2"
  shows "Resize_call r img = Inl TypeError"
proof -
  have "length (np_split_channels (np_asarray img)) = shape (np_asarray img) ! 2"
    by (simp add: np_split_channels_def)
  then have "[0..<length (np_split_channels (np_asarray img))] \<noteq> []"
    using assms(2) by simp
  then have "resize_slices r [0..<length (np_split_channels (np_asarray img))] = Inl TypeError"
    by (rule resize_slices_nonempty)
  then show ?thesis
    using assms by (simp add: Resize_call_def Let_def)
qed

text \<open>
  Claim C6 says that \<open>Resize.__call__\<close> returns a resized image for every 3-D image
  with more than 4 channels. The code does not: the loop of the split branch runs at
  least once and its first iteration raises \<open>TypeError\<close> at \<^verbatim>\<open>slice[idx]\<close>
  (lemma \<open>Resize_call_many_channels\<close>, for every such image). Here
  \<^verbatim>\<open>Resize(dsize=(4, 4))\<close> is applied to a 2\<times>2 image with five channels.
\<close>

theorem Resize_many_channels_raises:
  "Resize_init (4, 4) 0 0 first_pixel False = Inr resize_4x4
   \<and> ndim image_2x2x5 = 3 \<and> shape image_2x2x5 ! 2 = 5
   \<and> Resize_call resize_4x4 (NdArray image_2x2x5) = Inl TypeError"
proof -
  have "Resize_call resize_4x4 (NdArray image_2x2x5) = Inl TypeError"
    by (rule Resize_call_many_channels) (simp_all add: np_asarray_def ndim_def image_2x2x5_def)
  then show ?thesis
    by (simp add: Resize_init_def resize_4x4_def ndim_def image_2x2x5_def)
qed

lemma attempt_loop_no_fit:
  assumes "\<And>k. \<exists>tw th k'. sample_region r rnd k ih iw = Inr ((tw, th), k')
                    \<and> \<not> (tw \<le> iw \<and> th \<le> ih)"
    and "target_col st = None"
  shows "\<exists>st'. attempt_loop r rnd ih iw n st = Inr st' \<and> target_col st' = None"
  using assms(2)
proof (induction n arbitrary: st)
  case 0
  then show ?case by simp
next
  case (Suc n)
  obtain tw th k' where s: "sample_region r rnd (draws st) ih iw = Inr ((tw, th), k')"
    and nofit: "\<not> (tw \<le> iw \<and> th \<le> ih)"
    using assms(1) by blast
  let ?st = "st\<lparr>target_width := Some tw, target_height := Some th, draws := k'\<rparr>"
  have "target_col ?st = None" using Suc.prems by simp
  then have "\<exists>st'. attempt_loop r rnd ih iw n ?st = Inr st' \<and> target_col st' = None"
    by (rule Suc.IH)
  then show ?case
    using s nofit by auto
qed

lemma RandomResizedCrop_no_fit_raises:
  assumes sh: "shape (np_asarray img) = h # w # rest"
    and applied: "\<not> (probability r < 1 \<and> probability r < np_uniform 0 1 (rnd 0))"
    and nofit: "\<And>k. \<exists>tw th k'. sample_region r rnd k (int h) (int w) = Inr ((tw, th), k')
                    \<and> \<not> (tw \<le> int w \<and> th \<le> int h)"
  shows "RandomResizedCrop_call r rnd img = Inl TypeError"
proof -
  let ?st0 = "\<lparr>target_width = None, target_height = None, target_col = None,
               target_row = None, draws = (if probability r < 1 then 1 else 0)\<rparr>"
  have "target_col ?st0 = None" by simp
  then obtain st' where
    loop: "attempt_loop r rnd (int h) (int w) (nat (random_attempts r)) ?st0 = Inr st'"
    and none: "target_col st' = None"
    using attempt_loop_no_fit [of r rnd "int h" "int w" ?st0, OF nofit] by blast
  have "py_add (target_col st') (target_width st') = Inl TypeError"
    by (simp add: py_add_def none)
  then show ?thesis
    using applied loop by (simp add: RandomResizedCrop_call_def Let_def sh)
qed

lemma sqrt_100: "sqrt 100 = 10"
  by (rule real_sqrt_unique) simp_all

lemma sample_region_crop_10:
  "sample_region crop_10_to_8 rnd k 4 4 = Inr ((10, 10), k + 3)"
  by (simp add: sample_region_def crop_10_to_8_def Let_def is_int_def is_float_def
      uniform_between_def num_of_def np_uniform_def math_sqrt_def sqrt_100 py_round_def)

lemma RandomResizedCrop_call_crop_10:
  "RandomResizedCrop_call crop_10_to_8 rnd (NdArray image_4x4) = Inl TypeError"
proof (rule RandomResizedCrop_no_fit_raises)
  show "shape (np_asarray (NdArray image_4x4)) = 4 # 4 # []"
    by (simp add: np_asarray_def image_4x4_def)
  show "\<not> (probability crop_10_to_8 < 1 \<and> probability crop_10_to_8 < np_uniform 0 1 (rnd 0))"
    by (simp add: crop_10_to_8_def)
  fix k
  show "\<exists>tw th k'. sample_region crop_10_to_8 rnd k (int 4) (int 4) = Inr ((tw, th), k')
          \<and> \<not> (tw \<le> int 4 \<and> th \<le> int 4)"
    using sample_region_crop_10 [of rnd k] by simp
qed

lemma RandomResizedCrop_init_crop_10:
  "RandomResizedCrop_init (PyInt 8) (PyTuple [PyInt 10, PyInt 10]) (PyFloat 1) 1 10 first_pixel
     = Inr crop_10_to_8"
  by (simp add: RandomResizedCrop_init_def rrc_output_size_def tile_size_pair_def
      seq_items_def is_int_def is_float_def valid_extent_def rrc_input_size_def rrc_ratio_def
      py_min_def py_max_def num_val_def crop_10_to_8_def Let_def)

text \<open>
  Claim C1 says that \<open>RandomResizedCrop.__call__\<close> falls back to a centered square crop
  and does not raise when no sampled region fits. The code does not: the guard of the
  fallback tests \<open>image_height\<close> and \<open>image_width\<close>, which are never \<^verbatim>\<open>None\<close>, so
  \<open>target_col\<close> is still \<^verbatim>\<open>None\<close> when the crop corner is computed (lemma
  \<open>RandomResizedCrop_no_fit_raises\<close>, for every image and random source). Here regions
  of 10\<times>10 are sampled for a 4\<times>4 image: whatever the random draws, the call raises
  \<open>TypeError\<close>.
\<close>

theorem RandomResizedCrop_fallback_missing:
  "RandomResizedCrop_init (PyInt 8) (PyTuple [PyInt 10, PyInt 10]) (PyFloat 1) 1 10 first_pixel
     = Inr crop_10_to_8
   \<and> RandomResizedCrop_call crop_10_to_8 rnd (NdArray image_4x4) = Inl TypeError"
  using RandomResizedCrop_init_crop_10 RandomResizedCrop_call_crop_10 by simp

end
